theory Spec2Isabelle
  imports Complex_Main
begin

section \<open>JavaScript values\<close>

text \<open>
  A JavaScript number is a finite value, one of the two infinities, or NaN. Finite values
  are taken as reals: the rounding of IEEE doubles, overflow to an infinity and the sign
  of zero are not modelled (a division by zero gives the result for \<open>+0\<close>).
\<close>

datatype jsnum = Fin real | PosInf | NegInf | NaN

text \<open>The primitive values a property of the collaborator's answers may hold.\<close>

datatype jsval = Undefined | Null | Bool bool | Num jsnum | Str string

text \<open>The operator \<open>/\<close> on numbers.\<close>

fun js_div :: "jsnum \<Rightarrow> jsnum \<Rightarrow> jsnum" where
  "js_div NaN y = NaN"
| "js_div x NaN = NaN"
| "js_div (Fin a) (Fin b) =
     (if b \<noteq> 0 then Fin (a / b)
      else if a = 0 then NaN
      else if 0 < a then PosInf else NegInf)"
| "js_div (Fin a) PosInf = Fin 0"
| "js_div (Fin a) NegInf = Fin 0"
| "js_div PosInf (Fin b) = (if 0 \<le> b then PosInf else NegInf)"
| "js_div NegInf (Fin b) = (if 0 \<le> b then NegInf else PosInf)"
| "js_div PosInf PosInf = NaN"
| "js_div PosInf NegInf = NaN"
| "js_div NegInf PosInf = NaN"
| "js_div NegInf NegInf = NaN"

text \<open>The operator \<open>*\<close> on numbers.\<close>

fun js_mul :: "jsnum \<Rightarrow> jsnum \<Rightarrow> jsnum" where
  "js_mul NaN y = NaN"
| "js_mul x NaN = NaN"
| "js_mul (Fin a) (Fin b) = Fin (a * b)"
| "js_mul (Fin a) PosInf = (if a = 0 then NaN else if 0 < a then PosInf else NegInf)"
| "js_mul (Fin a) NegInf = (if a = 0 then NaN else if 0 < a then NegInf else PosInf)"
| "js_mul PosInf (Fin b) = (if b = 0 then NaN else if 0 < b then PosInf else NegInf)"
| "js_mul NegInf (Fin b) = (if b = 0 then NaN else if 0 < b then NegInf else PosInf)"
| "js_mul PosInf PosInf = PosInf"
| "js_mul PosInf NegInf = NegInf"
| "js_mul NegInf PosInf = NegInf"
| "js_mul NegInf NegInf = PosInf"

text \<open>
  Truthiness: \<open>undefined\<close>, \<open>null\<close>, \<open>false\<close>, \<open>0\<close>, \<open>NaN\<close> and the empty string are
  falsy, every other primitive value is truthy.
\<close>

fun truthy :: "jsval \<Rightarrow> bool" where
  "truthy Undefined = False"
| "truthy Null = False"
| "truthy (Bool b) = b"
| "truthy (Num (Fin r)) = (r \<noteq> 0)"
| "truthy (Num PosInf) = True"
| "truthy (Num NegInf) = True"
| "truthy (Num NaN) = False"
| "truthy (Str s) = (s \<noteq> [])"

text \<open>The operator \<open>||\<close>: the left operand when it is truthy, the right one otherwise.\<close>

definition js_or :: "jsval \<Rightarrow> jsval \<Rightarrow> jsval" where
  "js_or a b = (if truthy a then a else b)"

text \<open>A value that is a real number greater than or equal to 0.\<close>

fun nonneg_real :: "jsval \<Rightarrow> bool" where
  "nonneg_real (Num (Fin r)) = (0 \<le> r)"
| "nonneg_real v = False"

section \<open>The introspection collaborator\<close>

text \<open>
  The answers of the nine queries of \<open>systeminformation\<close>, with the properties that
  \<open>getSystemMetrics\<close> reads. The operands of the two divisions are numbers; every other
  property is copied or guarded by \<open>||\<close> and may hold any primitive value.
\<close>

record si_cpu_data =
  si_cpu_brand :: jsval
  si_cpu_cores :: jsval
  si_cpu_physicalCores :: jsval
  si_cpu_speed :: jsval

record si_mem_data =
  si_mem_total :: jsnum
  si_mem_used :: jsnum
  si_mem_available :: jsval

record si_fs_data =
  si_fs_fs :: jsval
  si_fs_size :: jsnum
  si_fs_used :: jsnum
  si_fs_available :: jsval

record si_net_data =
  si_net_iface :: jsval
  si_net_rx_sec :: jsval
  si_net_tx_sec :: jsval

record si_load_data =
  si_load_currentLoad :: jsval
  si_load_currentLoadUser :: jsval

record si_os_data =
  si_os_hostname :: jsval
  si_os_platform :: jsval
  si_os_arch :: jsval
  si_os_kernel :: jsval
  si_os_uptime :: jsval

record si_system_data =
  si_system_manufacturer :: jsval
  si_system_model :: jsval
  si_system_version :: jsval
  si_system_serial :: jsval

record si_controller_data =
  si_gpu_vendor :: jsval
  si_gpu_model :: jsval
  si_gpu_vram :: jsval

record si_graphics_data =
  si_graphics_controllers :: "si_controller_data list"

record si_process_data =
  si_proc_pid :: jsval
  si_proc_name :: jsval
  si_proc_cpu :: jsval
  si_proc_mem :: jsval

record si_processes_data =
  si_procs_all :: jsval
  si_procs_running :: jsval
  si_procs_sleeping :: jsval
  si_procs_list :: "si_process_data list"

text \<open>A query either rejects with an error or resolves with its answer.\<close>

datatype js_error = JsError string

type_synonym 'a promise = "js_error + 'a"

text \<open>
  Queries of the collaborator, named as its functions: the nine that the sampler issues,
  and the temperature query \<open>cpuTemperature\<close>, which no line of the source calls.
\<close>

datatype si_query =
  Q_cpu | Q_mem | Q_fsSize | Q_networkStats | Q_currentLoad | Q_osInfo | Q_system
  | Q_graphics | Q_processes | Q_cpuTemperature

text \<open>The state of the host at one sampler call: how each query settles.\<close>

record host_facts =
  si_cpu :: "si_cpu_data promise"
  si_mem :: "si_mem_data promise"
  si_fsSize :: "si_fs_data list promise"
  si_networkStats :: "si_net_data list promise"
  si_currentLoad :: "si_load_data promise"
  si_osInfo :: "si_os_data promise"
  si_system :: "si_system_data promise"
  si_graphics :: "si_graphics_data promise"
  si_processes :: "si_processes_data promise"

section \<open>The metrics snapshot\<close>

record cpu_info =
  brand :: jsval
  cores :: jsval
  physicalCores :: jsval
  usage :: jsval
  speed :: jsval
  temperature :: jsval

record memory_info =
  total :: jsnum
  used :: jsnum
  available :: jsval
  percentage :: jsnum

record disk_info =
  fs :: jsval
  d_size :: jsnum
  d_used :: jsnum
  d_available :: jsval
  d_percentage :: jsnum

record network_info =
  iface :: jsval
  rx_sec :: jsval
  tx_sec :: jsval

record device_info =
  hostname :: jsval
  platform :: jsval
  arch :: jsval
  kernel :: jsval
  uptime :: jsval
  manufacturer :: jsval
  model :: jsval
  version :: jsval
  serial :: jsval

record process_info =
  pid :: jsval
  name :: jsval
  p_cpu :: jsval
  p_mem :: jsval

record processes_info =
  procs_all :: jsval
  running :: jsval
  sleeping :: jsval
  procs_list :: "process_info list"

record graphics_info =
  vendor :: jsval
  g_model :: jsval
  vram :: jsval

record snapshot =
  timestamp :: int
  cpu :: cpu_info
  memory :: memory_info
  disk :: "disk_info list"
  network :: "network_info list"
  device :: device_info
  processes :: processes_info
  graphics :: "graphics_info list"

section \<open>The sampler\<close>

text \<open>The callbacks of the four \<open>map\<close> calls of \<open>getSystemMetrics\<close>.\<close>

definition disk_entry :: "si_fs_data \<Rightarrow> disk_info" where
  "disk_entry d =
     \<lparr>fs = si_fs_fs d,
      d_size = si_fs_size d,
      d_used = si_fs_used d,
      d_available = si_fs_available d,
      d_percentage = js_mul (js_div (si_fs_used d) (si_fs_size d)) (Fin 100)\<rparr>"

definition network_entry :: "si_net_data \<Rightarrow> network_info" where
  "network_entry n =
     \<lparr>iface = si_net_iface n,
      rx_sec = js_or (si_net_rx_sec n) (Num (Fin 0)),
      tx_sec = js_or (si_net_tx_sec n) (Num (Fin 0))\<rparr>"

definition process_entry :: "si_process_data \<Rightarrow> process_info" where
  "process_entry p =
     \<lparr>pid = si_proc_pid p,
      name = si_proc_name p,
      p_cpu = si_proc_cpu p,
      p_mem = si_proc_mem p\<rparr>"

definition graphics_entry :: "si_controller_data \<Rightarrow> graphics_info" where
  "graphics_entry g =
     \<lparr>vendor = si_gpu_vendor g,
      g_model = si_gpu_model g,
      vram = si_gpu_vram g\<rparr>"

text \<open>\<open>xs.slice(0, k)\<close> on an array.\<close>

definition slice0 :: "nat \<Rightarrow> 'a list \<Rightarrow> 'a list" where
  "slice0 k xs = take k xs"

text \<open>
  The object that the \<open>try\<close> block returns once all nine queries have resolved;
  \<open>now\<close> is what \<open>Date.now()\<close> reads.
\<close>

definition build_snapshot ::
  "int \<Rightarrow> si_cpu_data \<Rightarrow> si_mem_data \<Rightarrow> si_fs_data list \<Rightarrow> si_net_data list \<Rightarrow> si_load_data
     \<Rightarrow> si_os_data \<Rightarrow> si_system_data \<Rightarrow> si_graphics_data \<Rightarrow> si_processes_data \<Rightarrow> snapshot" where
  "build_snapshot now c m ds ns l os sy gr ps =
     \<lparr>timestamp = now,
      cpu =
        \<lparr>brand = si_cpu_brand c,
         cores = si_cpu_cores c,
         physicalCores = si_cpu_physicalCores c,
         usage = si_load_currentLoad l,
         speed = si_cpu_speed c,
         temperature = js_or (si_load_currentLoadUser l) (Num (Fin 0))\<rparr>,
      memory =
        \<lparr>total = si_mem_total m,
         used = si_mem_used m,
         available = si_mem_available m,
         percentage = js_mul (js_div (si_mem_used m) (si_mem_total m)) (Fin 100)\<rparr>,
      disk = map disk_entry ds,
      network = map network_entry ns,
      device =
        \<lparr>hostname = si_os_hostname os,
         platform = si_os_platform os,
         arch = si_os_arch os,
         kernel = si_os_kernel os,
         uptime = si_os_uptime os,
         manufacturer = si_system_manufacturer sy,
         model = si_system_model sy,
         version = si_system_version sy,
         serial = si_system_serial sy\<rparr>,
      processes =
        \<lparr>procs_all = si_procs_all ps,
         running = si_procs_running ps,
         sleeping = si_procs_sleeping ps,
         procs_list = map process_entry (slice0 10 (si_procs_list ps))\<rparr>,
      graphics = map graphics_entry (si_graphics_controllers gr)\<rparr>"

text \<open>
  The \<open>try\<close> block: \<open>await Promise.all\<close> of the nine queries throws when one of them
  rejects (here the first rejected one in the order of the array; the handler only logs
  the error), otherwise the snapshot is built from the nine answers.
\<close>

definition getSystemMetrics_try :: "int \<Rightarrow> host_facts \<Rightarrow> js_error + snapshot" where
  "getSystemMetrics_try now h =
     (case si_cpu h of Inl e \<Rightarrow> Inl e | Inr c \<Rightarrow>
     (case si_mem h of Inl e \<Rightarrow> Inl e | Inr m \<Rightarrow>
     (case si_fsSize h of Inl e \<Rightarrow> Inl e | Inr ds \<Rightarrow>
     (case si_networkStats h of Inl e \<Rightarrow> Inl e | Inr ns \<Rightarrow>
     (case si_currentLoad h of Inl e \<Rightarrow> Inl e | Inr l \<Rightarrow>
     (case si_osInfo h of Inl e \<Rightarrow> Inl e | Inr os \<Rightarrow>
     (case si_system h of Inl e \<Rightarrow> Inl e | Inr sy \<Rightarrow>
     (case si_graphics h of Inl e \<Rightarrow> Inl e | Inr gr \<Rightarrow>
     (case si_processes h of Inl e \<Rightarrow> Inl e | Inr ps \<Rightarrow>
        Inr (build_snapshot now c m ds ns l os sy gr ps))))))))))"

text \<open>
  \<open>getSystemMetrics\<close>: the \<open>catch\<close> clause turns every error of the \<open>try\<close> block into
  the result \<open>null\<close> (\<open>None\<close>). The line written to the console is not modelled.
\<close>

definition getSystemMetrics :: "int \<Rightarrow> host_facts \<Rightarrow> snapshot option" where
  "getSystemMetrics now h =
     (case getSystemMetrics_try now h of Inl e \<Rightarrow> None | Inr s \<Rightarrow> Some s)"

text \<open>The queries that one call of \<open>getSystemMetrics\<close> issues, in the order of the array.\<close>

definition getSystemMetrics_queries :: "si_query list" where
  "getSystemMetrics_queries =
     [Q_cpu, Q_mem, Q_fsSize, Q_networkStats, Q_currentLoad, Q_osInfo, Q_system,
      Q_graphics, Q_processes]"

section \<open>The broadcast server\<close>

text \<open>
  The state of the server: the counter \<open>connectedClients\<close> of the source, and of its
  environment: the sockets that socket.io holds open (each one carries the
  \<open>disconnect\<close> handler registered at its connection) and the identifier of the next
  socket, the calls of \<open>io.emit\<close>, the events delivered to each socket, the queries
  issued to the collaborator, and the number of sampler calls that wait for their
  queries to settle.
\<close>

record server =
  connectedClients :: int
  open_sockets :: "nat list"
  next_socket :: nat
  emitted :: "(string \<times> snapshot) list"
  delivered :: "(nat \<times> string \<times> snapshot) list"
  si_log :: "si_query list"
  pending :: nat

definition init :: server where
  "init =
     \<lparr>connectedClients = 0, open_sockets = [], next_socket = 0, emitted = [],
      delivered = [], si_log = [], pending = 0\<rparr>"

text \<open>The handler of \<open>connection\<close> and the handler of \<open>disconnect\<close> that it registers.\<close>

definition on_connection :: "server \<Rightarrow> server" where
  "on_connection s = s\<lparr>connectedClients := connectedClients s + 1\<rparr>"

definition on_disconnect :: "server \<Rightarrow> server" where
  "on_disconnect s = s\<lparr>connectedClients := connectedClients s - 1\<rparr>"

text \<open>\<open>io.emit(ev, payload)\<close>: socket.io sends the event to every open socket.\<close>

definition io_emit :: "string \<Rightarrow> snapshot \<Rightarrow> server \<Rightarrow> server" where
  "io_emit ev payload s =
     s\<lparr>emitted := emitted s @ [(ev, payload)],
       delivered := delivered s @ map (\<lambda>v. (v, ev, payload)) (open_sockets s)\<rparr>"

text \<open>
  The callback of \<open>setInterval\<close> runs in two steps, with its \<open>await\<close> between them.
  The first, \<open>tick\<close>, runs when the timer fires: it tests the counter and calls
  \<open>getSystemMetrics\<close>, which issues the nine queries and then waits for them.
  The second, \<open>resume\<close>, runs when the queries of a waiting call have settled as \<open>h\<close>
  and \<open>Date.now()\<close> reads \<open>now\<close>: \<open>getSystemMetrics\<close> returns, and the callback emits
  what it returned unless that is \<open>null\<close> (a snapshot is an object, hence truthy).
  Viewers may connect and disconnect between the two steps.
\<close>

definition tick :: "server \<Rightarrow> server" where
  "tick s =
     (if 0 < connectedClients s
      then s\<lparr>si_log := si_log s @ getSystemMetrics_queries, pending := Suc (pending s)\<rparr>
      else s)"

definition resume :: "int \<Rightarrow> host_facts \<Rightarrow> server \<Rightarrow> server" where
  "resume now h s =
     (case getSystemMetrics now h of
        Some metrics \<Rightarrow> io_emit ''systemMetrics'' metrics s
      | None \<Rightarrow> s)"

text \<open>The answer of \<open>GET /health\<close>.\<close>

record health_response =
  status :: string
  hr_connectedClients :: int

definition health :: "server \<Rightarrow> health_response" where
  "health s = \<lparr>status = ''OK'', hr_connectedClients = connectedClients s\<rparr>"

text \<open>
  What happens to the server: a viewer connects (socket.io opens a socket with a fresh
  identifier and runs the \<open>connection\<close> handler), an open socket closes (socket.io runs
  its \<open>disconnect\<close> handler, once; a socket that is not open has none), the timer
  fires, or the queries of a waiting sampler call settle (when no call waits there is
  nothing to settle).
\<close>

datatype event = Connect | Disconnect nat | Tick | Settle int host_facts

fun step :: "event \<Rightarrow> server \<Rightarrow> server" where
  "step Connect s =
     on_connection
       (s\<lparr>open_sockets := open_sockets s @ [next_socket s],
          next_socket := Suc (next_socket s)\<rparr>)"
| "step (Disconnect v) s =
     (if v \<in> set (open_sockets s)
      then on_disconnect (s\<lparr>open_sockets := removeAll v (open_sockets s)\<rparr>)
      else s)"
| "step Tick s = tick s"
| "step (Settle now h) s =
     (if 0 < pending s then resume now h (s\<lparr>pending := pending s - 1\<rparr>) else s)"

definition run :: "event list \<Rightarrow> server \<Rightarrow> server" where
  "run evs s = foldl (\<lambda>s e. step e s) s evs"

text \<open>The readings of the clock at which the sampler calls of a run return, in order.\<close>

fun clock_readings :: "event list \<Rightarrow> int list" where
  "clock_readings [] = []"
| "clock_readings (Settle now h # evs) = now # clock_readings evs"
| "clock_readings (e # evs) = clock_readings evs"

section \<open>Observations and sample inputs\<close>

text \<open>
  What holds in every state the server reaches: the counter is the number of open
  sockets, no socket is open twice, the identifiers in use lie below the next one,
  only the nine queries of the sampler have been issued, and every call of \<open>io.emit\<close>
  and every waiting sampler call has the nine queries of a tick of its own.
\<close>

definition server_inv :: "server \<Rightarrow> bool" where
  "server_inv s \<longleftrightarrow>
     connectedClients s = int (length (open_sockets s)) \<and>
     distinct (open_sockets s) \<and>
     (\<forall>v \<in> set (open_sockets s). v < next_socket s) \<and>
     set (si_log s) \<subseteq> set getSystemMetrics_queries \<and>
     length getSystemMetrics_queries * (length (emitted s) + pending s) \<le> length (si_log s)"

text \<open>The events delivered between a state and a later one, and those of one viewer.\<close>

definition new_deliveries :: "server \<Rightarrow> server \<Rightarrow> (nat \<times> string \<times> snapshot) list" where
  "new_deliveries s s' = drop (length (delivered s)) (delivered s')"

definition received_by :: "nat \<Rightarrow> (nat \<times> string \<times> snapshot) list \<Rightarrow> (string \<times> snapshot) list" where
  "received_by v ds = map snd (filter (\<lambda>d. fst d = v) ds)"

text \<open>A value that is falsy or a real number greater than or equal to 0.\<close>

definition falsy_or_nonneg :: "jsval \<Rightarrow> bool" where
  "falsy_or_nonneg v \<longleftrightarrow> \<not> truthy v \<or> nonneg_real v"

text \<open>The capture timestamps of the snapshots a server has emitted, oldest first.\<close>

definition capture_times :: "server \<Rightarrow> int list" where
  "capture_times s = map timestamp (map snd (emitted s))"

text \<open>The receive and transmit rates of a snapshot, one per interface.\<close>

definition rx_rates :: "snapshot \<Rightarrow> jsval list" where
  "rx_rates s = map rx_sec (network s)"

definition tx_rates :: "snapshot \<Rightarrow> jsval list" where
  "tx_rates s = map tx_sec (network s)"

text \<open>
  A host on which every query resolves: 50 of 100 bytes of memory in use, one volume with
  50 of 200 bytes in use, one interface whose receive rate is still \<open>null\<close>, and twelve
  processes listed with rising CPU usage.
\<close>

definition cpu0 :: si_cpu_data where
  "cpu0 =
     \<lparr>si_cpu_brand = Str ''Core'', si_cpu_cores = Num (Fin 8),
      si_cpu_physicalCores = Num (Fin 4), si_cpu_speed = Num (Fin 3)\<rparr>"

definition mem0 :: si_mem_data where
  "mem0 = \<lparr>si_mem_total = Fin 100, si_mem_used = Fin 50, si_mem_available = Num (Fin 50)\<rparr>"

definition fs0 :: si_fs_data where
  "fs0 =
     \<lparr>si_fs_fs = Str ''/dev/sda1'', si_fs_size = Fin 200, si_fs_used = Fin 50,
      si_fs_available = Num (Fin 150)\<rparr>"

definition net0 :: si_net_data where
  "net0 = \<lparr>si_net_iface = Str ''eth0'', si_net_rx_sec = Null, si_net_tx_sec = Num (Fin 7)\<rparr>"

definition load0 :: si_load_data where
  "load0 = \<lparr>si_load_currentLoad = Num (Fin 12), si_load_currentLoadUser = Num (Fin 9)\<rparr>"

definition os0 :: si_os_data where
  "os0 =
     \<lparr>si_os_hostname = Str ''box'', si_os_platform = Str ''linux'', si_os_arch = Str ''x64'',
      si_os_kernel = Str ''6.1'', si_os_uptime = Num (Fin 3600)\<rparr>"

definition system0 :: si_system_data where
  "system0 =
     \<lparr>si_system_manufacturer = Str ''Acme'', si_system_model = Str ''A1'',
      si_system_version = Str ''1'', si_system_serial = Str []\<rparr>"

definition graphics0 :: si_graphics_data where
  "graphics0 =
     \<lparr>si_graphics_controllers =
        [\<lparr>si_gpu_vendor = Str ''Acme'', si_gpu_model = Str ''G1'', si_gpu_vram = Num (Fin 2048)\<rparr>]\<rparr>"

definition proc0 :: "nat \<Rightarrow> si_process_data" where
  "proc0 i =
     \<lparr>si_proc_pid = Num (Fin (real i)), si_proc_name = Str ''sh'',
      si_proc_cpu = Num (Fin (real i)), si_proc_mem = Num (Fin 1)\<rparr>"

definition processes0 :: si_processes_data where
  "processes0 =
     \<lparr>si_procs_all = Num (Fin 12), si_procs_running = Num (Fin 2),
      si_procs_sleeping = Num (Fin 10),
      si_procs_list =
        [proc0 1, proc0 2, proc0 3, proc0 4, proc0 5, proc0 6, proc0 7, proc0 8, proc0 9,
         proc0 10, proc0 11, proc0 12]\<rparr>"

definition host0 :: host_facts where
  "host0 =
     \<lparr>si_cpu = Inr cpu0, si_mem = Inr mem0, si_fsSize = Inr [fs0],
      si_networkStats = Inr [net0], si_currentLoad = Inr load0, si_osInfo = Inr os0,
      si_system = Inr system0, si_graphics = Inr graphics0, si_processes = Inr processes0\<rparr>"

definition snapshot0 :: "int \<Rightarrow> snapshot" where
  "snapshot0 now =
     build_snapshot now cpu0 mem0 [fs0] [net0] load0 os0 system0 graphics0 processes0"

text \<open>The same host with the graphics query rejecting.\<close>

definition host_failing :: host_facts where
  "host_failing = host0\<lparr>si_graphics := Inl (JsError ''no adapter'')\<rparr>"

text \<open>The same host with an interface for which the collaborator reports negative rates.\<close>

definition net_negative :: si_net_data where
  "net_negative =
     \<lparr>si_net_iface = Str ''eth0'', si_net_rx_sec = Num (Fin (- 5)),
      si_net_tx_sec = Num (Fin (- 1))\<rparr>"

definition host_negative :: host_facts where
  "host_negative = host0\<lparr>si_networkStats := Inr [net_negative]\<rparr>"

section \<open>Facts about the sampler\<close>

lemma getSystemMetrics_Some_iff:
  "getSystemMetrics now h = Some s \<longleftrightarrow>
     (\<exists>c m ds ns l os sy gr ps.
        si_cpu h = Inr c \<and> si_mem h = Inr m \<and> si_fsSize h = Inr ds \<and>
        si_networkStats h = Inr ns \<and> si_currentLoad h = Inr l \<and> si_osInfo h = Inr os \<and>
        si_system h = Inr sy \<and> si_graphics h = Inr gr \<and> si_processes h = Inr ps \<and>
        s = build_snapshot now c m ds ns l os sy gr ps)"
  unfolding getSystemMetrics_def getSystemMetrics_try_def
  by (auto split: sum.splits)

lemma getSystemMetrics_host0: "getSystemMetrics now host0 = Some (snapshot0 now)"
  by (simp add: getSystemMetrics_Some_iff host0_def snapshot0_def)

lemma getSystemMetrics_timestamp: "getSystemMetrics now h = Some m \<Longrightarrow> timestamp m = now"
  by (auto simp: getSystemMetrics_Some_iff build_snapshot_def)

lemma getSystemMetrics_rejected:
  assumes "isl (si_cpu h) \<or> isl (si_mem h) \<or> isl (si_fsSize h) \<or> isl (si_networkStats h) \<or>
     isl (si_currentLoad h) \<or> isl (si_osInfo h) \<or> isl (si_system h) \<or> isl (si_graphics h) \<or>
     isl (si_processes h)"
  shows "getSystemMetrics now h = None"
proof (cases "getSystemMetrics now h")
  case None
  then show ?thesis .
next
  case (Some s)
  then have "\<not> isl (si_cpu h)" "\<not> isl (si_mem h)" "\<not> isl (si_fsSize h)"
    "\<not> isl (si_networkStats h)" "\<not> isl (si_currentLoad h)" "\<not> isl (si_osInfo h)"
    "\<not> isl (si_system h)" "\<not> isl (si_graphics h)" "\<not> isl (si_processes h)"
    unfolding getSystemMetrics_Some_iff by auto
  with assms show ?thesis by blast
qed

lemma js_percent_Fin:
  "(0::real) < t \<Longrightarrow> js_mul (js_div (Fin u) (Fin t)) (Fin 100) = Fin (u / t * 100)"
  by simp

lemma snapshot0_pids:
  "map pid (procs_list (processes (snapshot0 now))) =
     [Num (Fin 1), Num (Fin 2), Num (Fin 3), Num (Fin 4), Num (Fin 5), Num (Fin 6),
      Num (Fin 7), Num (Fin 8), Num (Fin 9), Num (Fin 10)]"
  by (simp add: snapshot0_def build_snapshot_def slice0_def processes0_def process_entry_def
      proc0_def)

lemma build_snapshot_timestamp:
  "(build_snapshot a c m ds ns l os sy gr ps)\<lparr>timestamp := b\<rparr> =
     build_snapshot b c m ds ns l os sy gr ps"
  by (simp add: build_snapshot_def)

lemma getSystemMetrics_clock:
  assumes "getSystemMetrics a h = Some s"
  shows "getSystemMetrics b h = Some (s\<lparr>timestamp := b\<rparr>)"
proof -
  from assms obtain c m ds ns l os sy gr ps where
    q: "si_cpu h = Inr c" "si_mem h = Inr m" "si_fsSize h = Inr ds"
      "si_networkStats h = Inr ns" "si_currentLoad h = Inr l" "si_osInfo h = Inr os"
      "si_system h = Inr sy" "si_graphics h = Inr gr" "si_processes h = Inr ps"
    and s: "s = build_snapshot a c m ds ns l os sy gr ps"
    unfolding getSystemMetrics_Some_iff by blast
  have "getSystemMetrics b h = Some (build_snapshot b c m ds ns l os sy gr ps)"
    by (simp add: getSystemMetrics_def getSystemMetrics_try_def q)
  then show ?thesis
    by (simp only: s build_snapshot_timestamp)
qed

lemma nonneg_js_or: "falsy_or_nonneg v \<Longrightarrow> nonneg_real (js_or v (Num (Fin 0)))"
  by (auto simp: falsy_or_nonneg_def js_or_def)

section \<open>Facts about the server\<close>

lemma tick_idle: "\<not> 0 < connectedClients s \<Longrightarrow> tick s = s"
  by (simp add: tick_def)

lemma resume_None: "getSystemMetrics now h = None \<Longrightarrow> resume now h s = s"
  by (simp add: resume_def)

lemma resume_Some:
  "getSystemMetrics now h = Some m \<Longrightarrow> resume now h s = io_emit ''systemMetrics'' m s"
  by (simp add: resume_def)

lemma run_Nil: "run [] s = s"
  by (simp add: run_def)

lemma run_Cons: "run (e # evs) s = run evs (step e s)"
  by (simp add: run_def)

lemma run_snoc: "run (evs @ [e]) s = step e (run evs s)"
  by (simp add: run_def)

lemma server_inv_init: "server_inv init"
  by (simp add: server_inv_def init_def)

lemma length_removeAll_distinct:
  "distinct xs \<Longrightarrow> v \<in> set xs \<Longrightarrow> int (length (removeAll v xs)) = int (length xs) - 1"
  by (induction xs) auto

lemma server_inv_tick: "server_inv s \<Longrightarrow> server_inv (tick s)"
  by (auto simp: tick_def server_inv_def algebra_simps)

lemma server_inv_resume:
  assumes "server_inv s" and "pending s = Suc p"
  shows "server_inv (resume now h (s\<lparr>pending := p\<rparr>))"
proof -
  have le: "length getSystemMetrics_queries * (length (emitted s) + Suc p) \<le> length (si_log s)"
    using assms by (simp add: server_inv_def)
  show ?thesis
  proof (cases "getSystemMetrics now h")
    case None
    have "length getSystemMetrics_queries * (length (emitted s) + p)
        \<le> length getSystemMetrics_queries * (length (emitted s) + Suc p)"
      by (intro mult_le_mono2) simp
    with le have "length getSystemMetrics_queries * (length (emitted s) + p) \<le> length (si_log s)"
      by (rule le_trans [rotated])
    with assms(1) show ?thesis
      by (simp add: resume_None [OF None] server_inv_def)
  next
    case (Some m)
    have "Suc (length (emitted s)) + p = length (emitted s) + Suc p"
      by simp
    with le have "length getSystemMetrics_queries * (Suc (length (emitted s)) + p)
        \<le> length (si_log s)"
      by (simp only:)
    with assms(1) show ?thesis
      by (simp add: resume_Some [OF Some] server_inv_def io_emit_def)
  qed
qed

lemma server_inv_step: "server_inv s \<Longrightarrow> server_inv (step e s)"
proof (cases e)
  case Connect
  assume "server_inv s"
  then show ?thesis
    using Connect by (auto simp: server_inv_def on_connection_def less_Suc_eq)
next
  case (Disconnect v)
  assume "server_inv s"
  then show ?thesis
    using Disconnect
    by (auto simp: server_inv_def on_disconnect_def length_removeAll_distinct distinct_removeAll)
next
  case Tick
  assume "server_inv s"
  then show ?thesis
    using Tick by (simp add: server_inv_tick)
next
  case (Settle now h)
  assume inv: "server_inv s"
  show ?thesis
  proof (cases "pending s")
    case 0
    with inv Settle show ?thesis
      by simp
  next
    case (Suc p)
    with Settle show ?thesis
      by (simp add: server_inv_resume [OF inv Suc])
  qed
qed

lemma server_inv_run: "server_inv s \<Longrightarrow> server_inv (run evs s)"
  by (induction evs arbitrary: s) (simp_all add: run_Nil run_Cons server_inv_step)

lemma server_inv_reachable: "server_inv (run evs init)"
  by (simp add: server_inv_run server_inv_init)

lemma step_Connect_then_Disconnect:
  "connectedClients (step (Disconnect (next_socket s)) (step Connect s)) = connectedClients s"
  by (simp add: on_connection_def on_disconnect_def)

lemma connectedClients_tick: "connectedClients (tick s) = connectedClients s"
  by (simp add: tick_def)

lemma connectedClients_resume: "connectedClients (resume now h s) = connectedClients s"
  by (cases "getSystemMetrics now h") (simp_all add: resume_def io_emit_def)

lemma connectedClients_settle: "connectedClients (step (Settle now h) s) = connectedClients s"
  by (simp add: connectedClients_resume)

lemma open_sockets_resume: "open_sockets (resume now h s) = open_sockets s"
  by (cases "getSystemMetrics now h") (simp_all add: resume_def io_emit_def)

lemma received_by_broadcast:
  "distinct xs \<Longrightarrow>
     received_by v (map (\<lambda>w. (w, ev, m)) xs) = (if v \<in> set xs then [(ev, m)] else [])"
  by (induction xs) (auto simp: received_by_def)

lemma settle_broadcast:
  assumes "0 < pending s" and "getSystemMetrics now h = Some m"
  shows "emitted (step (Settle now h) s) = emitted s @ [(''systemMetrics'', m)]"
    and "delivered (step (Settle now h) s) =
           delivered s @ map (\<lambda>v. (v, ''systemMetrics'', m)) (open_sockets s)"
    and "pending (step (Settle now h) s) = pending s - 1"
  using assms by (simp_all add: resume_Some io_emit_def)

lemma settle_silent:
  assumes "\<not> (0 < pending s \<and> getSystemMetrics now h \<noteq> None)"
  shows "emitted (step (Settle now h) s) = emitted s"
    and "delivered (step (Settle now h) s) = delivered s"
proof -
  have "emitted (step (Settle now h) s) = emitted s \<and>
      delivered (step (Settle now h) s) = delivered s"
  proof (cases "0 < pending s")
    case True
    with assms have "getSystemMetrics now h = None"
      by simp
    then show ?thesis
      by (simp add: resume_None)
  next
    case False
    then show ?thesis
      by simp
  qed
  then show "emitted (step (Settle now h) s) = emitted s"
    and "delivered (step (Settle now h) s) = delivered s"
    by simp_all
qed

lemma step_no_emit:
  "emitted (step Connect s) = emitted s" "delivered (step Connect s) = delivered s"
  "emitted (step (Disconnect v) s) = emitted s" "delivered (step (Disconnect v) s) = delivered s"
  "emitted (step Tick s) = emitted s" "delivered (step Tick s) = delivered s"
  by (simp_all add: on_connection_def on_disconnect_def tick_def)

lemma run_two_viewers:
  "open_sockets (run [Connect, Connect, Tick] init) = [0, 1]"
  "connectedClients (run [Connect, Connect, Tick] init) = 2"
  "emitted (run [Connect, Connect, Tick] init) = []"
  "delivered (run [Connect, Connect, Tick] init) = []"
  "pending (run [Connect, Connect, Tick] init) = 1"
  by (simp_all add: run_def init_def on_connection_def tick_def)

lemma run_viewer_left:
  "open_sockets (run [Connect, Tick, Disconnect 0] init) = []"
  "connectedClients (run [Connect, Tick, Disconnect 0] init) = 0"
  "emitted (run [Connect, Tick, Disconnect 0] init) = []"
  "delivered (run [Connect, Tick, Disconnect 0] init) = []"
  "pending (run [Connect, Tick, Disconnect 0] init) = 1"
  by (simp_all add: run_def init_def on_connection_def on_disconnect_def tick_def)

lemma timestamp_snapshot0: "timestamp (snapshot0 now) = now"
  by (simp add: snapshot0_def build_snapshot_def)

lemma capture_times_settle:
  "capture_times (step (Settle now h) s) =
     capture_times s @
       (if 0 < pending s \<and> getSystemMetrics now h \<noteq> None then [now] else [])"
proof (cases "getSystemMetrics now h")
  case None
  then show ?thesis
    by (simp add: resume_None capture_times_def)
next
  case (Some m)
  then show ?thesis
    by (simp add: resume_Some capture_times_def io_emit_def getSystemMetrics_timestamp)
qed

lemma capture_times_step_Connect: "capture_times (step Connect s) = capture_times s"
  by (simp add: capture_times_def on_connection_def)

lemma capture_times_step_Disconnect: "capture_times (step (Disconnect v) s) = capture_times s"
  by (simp add: capture_times_def on_disconnect_def)

lemma capture_times_step_Tick: "capture_times (step Tick s) = capture_times s"
  by (simp add: capture_times_def tick_def)

lemma capture_times_run_sorted:
  "sorted (capture_times s @ clock_readings evs) \<Longrightarrow> sorted (capture_times (run evs s))"
proof (induction evs arbitrary: s)
  case Nil
  then show ?case
    by (simp add: run_Nil)
next
  case (Cons e evs)
  have "sorted (capture_times (step e s) @ clock_readings evs)"
  proof (cases e)
    case Connect
    then show ?thesis
      using Cons.prems by (simp add: capture_times_step_Connect del: step.simps)
  next
    case (Disconnect v)
    then show ?thesis
      using Cons.prems by (simp add: capture_times_step_Disconnect del: step.simps)
  next
    case Tick
    then show ?thesis
      using Cons.prems by (simp add: capture_times_step_Tick del: step.simps)
  next
    case (Settle now h)
    then show ?thesis
      using Cons.prems by (auto simp: capture_times_settle sorted_append simp del: step.simps)
  qed
  then show ?case
    by (simp add: run_Cons Cons.IH)
qed

lemma emitted_settle:
  "emitted (step (Settle now h) s) =
     emitted s @
       (case getSystemMetrics now h of
          Some m \<Rightarrow> if 0 < pending s then [(''systemMetrics'', m)] else []
        | None \<Rightarrow> [])"
  by (cases "getSystemMetrics now h") (simp_all add: resume_def io_emit_def)

lemma emitted_step_origin:
  assumes "(ev, m) \<in> set (emitted (step e s))"
  shows "(ev, m) \<in> set (emitted s) \<or>
     (ev = ''systemMetrics'' \<and> (\<exists>now h. e = Settle now h \<and> getSystemMetrics now h = Some m))"
proof (cases e)
  case Connect
  with assms show ?thesis
    by (simp add: on_connection_def)
next
  case (Disconnect v)
  with assms show ?thesis
    by (simp add: on_disconnect_def split: if_splits)
next
  case Tick
  with assms show ?thesis
    by (simp add: tick_def split: if_splits)
next
  case (Settle now h)
  with assms show ?thesis
    by (auto simp: emitted_settle simp del: step.simps split: option.splits if_splits)
qed

lemma emitted_run_origin:
  "(ev, m) \<in> set (emitted (run evs s)) \<Longrightarrow>
     (ev, m) \<in> set (emitted s) \<or>
     (ev = ''systemMetrics'' \<and>
      (\<exists>now h. Settle now h \<in> set evs \<and> getSystemMetrics now h = Some m))"
proof (induction evs arbitrary: s)
  case Nil
  then show ?case
    by (simp add: run_Nil)
next
  case (Cons e evs)
  from Cons.prems have "(ev, m) \<in> set (emitted (run evs (step e s)))"
    by (simp add: run_Cons)
  then have "(ev, m) \<in> set (emitted (step e s)) \<or>
     (ev = ''systemMetrics'' \<and>
      (\<exists>now h. Settle now h \<in> set evs \<and> getSystemMetrics now h = Some m))"
    by (rule Cons.IH)
  then show ?case
  proof
    assume "(ev, m) \<in> set (emitted (step e s))"
    then show ?thesis
      using emitted_step_origin [of ev m e s] by auto
  next
    assume "ev = ''systemMetrics'' \<and>
      (\<exists>now h. Settle now h \<in> set evs \<and> getSystemMetrics now h = Some m)"
    then show ?thesis
      by auto
  qed
qed

lemma emitted_reachable_origin:
  "(ev, m) \<in> set (emitted (run evs init)) \<Longrightarrow>
     ev = ''systemMetrics'' \<and>
     (\<exists>now h. Settle now h \<in> set evs \<and> getSystemMetrics now h = Some m)"
  using emitted_run_origin [of ev m evs init] by (simp add: init_def)

section \<open>The claims\<close>

text \<open>
  C1. In every snapshot that the sampler returns, the percentage of the memory record is
  \<open>(used / total) * 100\<close> of the used and total stored in that same record, and the
  percentage of every disk entry is \<open>(used / size) * 100\<close> of that entry's own used and
  size; for finite values with total (size) above 0 this is the real number
  \<open>used / total * 100\<close> (rounding is not modelled).
\<close>

theorem percentage_derived:
  "getSystemMetrics now h = Some s \<Longrightarrow>
     percentage (memory s) = js_mul (js_div (used (memory s)) (total (memory s))) (Fin 100) \<and>
     (\<forall>(u::real) t. used (memory s) = Fin u \<and> total (memory s) = Fin t \<and> 0 < t \<longrightarrow>
        percentage (memory s) = Fin (u / t * 100)) \<and>
     (\<forall>d \<in> set (disk s).
        d_percentage d = js_mul (js_div (d_used d) (d_size d)) (Fin 100) \<and>
        (\<forall>(u::real) z. d_used d = Fin u \<and> d_size d = Fin z \<and> 0 < z \<longrightarrow>
           d_percentage d = Fin (u / z * 100)))"
proof -
  assume "getSystemMetrics now h = Some s"
  then obtain c m ds ns l os sy gr ps
    where s: "s = build_snapshot now c m ds ns l os sy gr ps"
    unfolding getSystemMetrics_Some_iff by blast
  have mem: "percentage (memory s) = js_mul (js_div (used (memory s)) (total (memory s))) (Fin 100)"
    by (simp add: s build_snapshot_def)
  have dsk: "d_percentage d = js_mul (js_div (d_used d) (d_size d)) (Fin 100)"
    if "d \<in> set (disk s)" for d
    using that by (auto simp: s build_snapshot_def disk_entry_def)
  show ?thesis
    using mem dsk by (auto simp: js_percent_Fin)
qed

theorem percentage_derived_witness:
  "getSystemMetrics 1000 host0 = Some (snapshot0 1000) \<and>
   used (memory (snapshot0 1000)) = Fin 50 \<and> total (memory (snapshot0 1000)) = Fin 100 \<and>
   percentage (memory (snapshot0 1000)) = Fin 50 \<and>
   map d_used (disk (snapshot0 1000)) = [Fin 50] \<and>
   map d_size (disk (snapshot0 1000)) = [Fin 200] \<and>
   map d_percentage (disk (snapshot0 1000)) = [Fin 25]"
  using percentage_derived [OF getSystemMetrics_host0, of 1000]
  by (simp add: getSystemMetrics_host0 snapshot0_def build_snapshot_def mem0_def fs0_def
      disk_entry_def)

text \<open>
  C2. When one of the nine queries rejects, the \<open>try\<close> block throws and the sampler
  returns \<open>null\<close> and nothing else: no snapshot, no error passed on. The callback that
  waited for it emits and delivers nothing and leaves the counter and the open sockets
  as they were, so the whole tick emits nothing, and the run goes on from the state the
  callback returns.
\<close>

theorem sampler_failure_is_total:
  "isl (si_cpu h) \<or> isl (si_mem h) \<or> isl (si_fsSize h) \<or> isl (si_networkStats h) \<or>
   isl (si_currentLoad h) \<or> isl (si_osInfo h) \<or> isl (si_system h) \<or> isl (si_graphics h) \<or>
   isl (si_processes h) \<Longrightarrow>
     (\<exists>e. getSystemMetrics_try now h = Inl e) \<and>
     getSystemMetrics now h = None \<and>
     resume now h s = s \<and>
     emitted (step (Settle now h) s) = emitted s \<and>
     delivered (step (Settle now h) s) = delivered s \<and>
     connectedClients (step (Settle now h) s) = connectedClients s \<and>
     open_sockets (step (Settle now h) s) = open_sockets s \<and>
     emitted (run [Tick, Settle now h] s) = emitted s \<and>
     delivered (run [Tick, Settle now h] s) = delivered s \<and>
     connectedClients (run [Tick, Settle now h] s) = connectedClients s \<and>
     open_sockets (run [Tick, Settle now h] s) = open_sockets s \<and>
     run (Settle now h # evs) s = run evs (step (Settle now h) s)"
proof -
  assume rej: "isl (si_cpu h) \<or> isl (si_mem h) \<or> isl (si_fsSize h) \<or> isl (si_networkStats h) \<or>
   isl (si_currentLoad h) \<or> isl (si_osInfo h) \<or> isl (si_system h) \<or> isl (si_graphics h) \<or>
   isl (si_processes h)"
  have none: "getSystemMetrics now h = None"
    using rej by (rule getSystemMetrics_rejected)
  have thrown: "\<exists>e. getSystemMetrics_try now h = Inl e"
    using none by (cases "getSystemMetrics_try now h") (simp_all add: getSystemMetrics_def)
  have res: "resume now h s' = s'" for s'
    using none by (rule resume_None)
  have settle: "emitted (step (Settle now h) s') = emitted s'"
    "delivered (step (Settle now h) s') = delivered s'"
    "connectedClients (step (Settle now h) s') = connectedClients s'"
    "open_sockets (step (Settle now h) s') = open_sockets s'" for s'
    by (simp_all add: res)
  have whole: "emitted (run [Tick, Settle now h] s) = emitted s"
    "delivered (run [Tick, Settle now h] s) = delivered s"
    "connectedClients (run [Tick, Settle now h] s) = connectedClients s"
    "open_sockets (run [Tick, Settle now h] s) = open_sockets s"
    by (simp_all add: run_Cons run_Nil settle del: step.simps(4)) (simp_all add: tick_def)
  show ?thesis
    using thrown none res [of s] settle [of s] whole run_Cons [of "Settle now h" evs s]
    by blast
qed

theorem sampler_failure_is_total_witness:
  "isl (si_graphics host_failing) \<and>
   getSystemMetrics 1000 host_failing = None \<and>
   connectedClients (run [Connect] init) = 1 \<and>
   pending (run [Connect, Tick] init) = 1 \<and>
   emitted (run [Tick, Settle 1000 host_failing] (run [Connect] init)) = [] \<and>
   delivered (run [Tick, Settle 1000 host_failing] (run [Connect] init)) = []"
proof -
  have r: "isl (si_graphics host_failing)"
    by (simp add: host_failing_def)
  have s: "connectedClients (run [Connect] init) = 1" "pending (run [Connect, Tick] init) = 1"
    "emitted (run [Connect] init) = []" "delivered (run [Connect] init) = []"
    by (simp_all add: run_def init_def on_connection_def tick_def)
  have "isl (si_cpu host_failing) \<or> isl (si_mem host_failing) \<or> isl (si_fsSize host_failing) \<or>
     isl (si_networkStats host_failing) \<or> isl (si_currentLoad host_failing) \<or>
     isl (si_osInfo host_failing) \<or> isl (si_system host_failing) \<or>
     isl (si_graphics host_failing) \<or> isl (si_processes host_failing)"
    using r by blast
  note t = sampler_failure_is_total [OF this, of 1000 "run [Connect] init" "[]"]
  have "getSystemMetrics 1000 host_failing = None"
    using t by blast
  moreover have "emitted (run [Tick, Settle 1000 host_failing] (run [Connect] init)) = []"
    using t s(3) by simp
  moreover have "delivered (run [Tick, Settle 1000 host_failing] (run [Connect] init)) = []"
    using t s(4) by simp
  ultimately show ?thesis
    using r s by blast
qed

text \<open>
  C3. A tick at which the counter is 0 changes nothing: the sampler is not called, so no
  query is issued to the collaborator and no call is left waiting, and nothing is
  emitted or delivered.
\<close>

theorem idle_tick_skips_sampler:
  "connectedClients s = 0 \<Longrightarrow>
     tick s = s \<and>
     step Tick s = s \<and>
     si_log (tick s) = si_log s \<and>
     pending (tick s) = pending s \<and>
     emitted (tick s) = emitted s \<and>
     delivered (tick s) = delivered s"
  by (simp add: tick_idle)

theorem idle_tick_skips_sampler_witness:
  "connectedClients init = 0 \<and> tick init = init \<and> si_log (tick init) = [] \<and>
   pending (tick init) = 0"
  using idle_tick_skips_sampler [of init]
  by (simp add: init_def)

text \<open>
  C4. In every snapshot that the sampler returns, the process list has at most 10
  entries: the first \<open>min 10 n\<close> entries of the collaborator's process table, in the
  collaborator's order, each reduced to its pid, name, cpu and mem.
\<close>

theorem process_list_truncated:
  "getSystemMetrics now h = Some s \<Longrightarrow> si_processes h = Inr ps \<Longrightarrow>
     length (procs_list (processes s)) \<le> 10 \<and>
     length (procs_list (processes s)) = min 10 (length (si_procs_list ps)) \<and>
     procs_list (processes s) = map process_entry (take 10 (si_procs_list ps)) \<and>
     (\<forall>i < length (procs_list (processes s)).
        procs_list (processes s) ! i = process_entry (si_procs_list ps ! i))"
  by (auto simp: getSystemMetrics_Some_iff build_snapshot_def slice0_def)

theorem process_list_truncated_witness:
  "getSystemMetrics 1000 host0 = Some (snapshot0 1000) \<and>
   si_processes host0 = Inr processes0 \<and>
   length (si_procs_list processes0) = 12 \<and>
   length (procs_list (processes (snapshot0 1000))) \<le> 10 \<and>
   procs_list (processes (snapshot0 1000)) = map process_entry (take 10 (si_procs_list processes0)) \<and>
   map pid (procs_list (processes (snapshot0 1000))) =
     [Num (Fin 1), Num (Fin 2), Num (Fin 3), Num (Fin 4), Num (Fin 5), Num (Fin 6),
      Num (Fin 7), Num (Fin 8), Num (Fin 9), Num (Fin 10)]"
proof -
  have h: "si_processes host0 = Inr processes0"
    by (simp add: host0_def)
  have n: "length (si_procs_list processes0) = 12"
    by (simp add: processes0_def)
  note t = process_list_truncated [OF getSystemMetrics_host0 h, of 1000]
  show ?thesis
    using t [THEN conjunct1] t [THEN conjunct2, THEN conjunct2, THEN conjunct1]
      getSystemMetrics_host0 [of 1000] h n snapshot0_pids [of 1000]
    by blast
qed

text \<open>
  C5. The counter starts at 0, a connect adds 1 and the disconnect of an open socket
  takes 1 away, neither step of a tick changes it, and \<open>GET /health\<close> answers with
  status \<open>OK\<close> and the counter: 0 at the start, 1 after one connect, 0 again once that
  viewer has disconnected. In every state the server reaches the counter is the number
  of open sockets, hence not negative.
\<close>

theorem viewer_counter:
  "connectedClients init = 0 \<and>
   connectedClients (on_connection s) = connectedClients s + 1 \<and>
   connectedClients (on_disconnect s) = connectedClients s - 1 \<and>
   connectedClients (step Connect s) = connectedClients s + 1 \<and>
   (v \<in> set (open_sockets s) \<longrightarrow>
      connectedClients (step (Disconnect v) s) = connectedClients s - 1) \<and>
   connectedClients (step (Disconnect (next_socket s)) (step Connect s)) = connectedClients s \<and>
   connectedClients (tick s) = connectedClients s \<and>
   connectedClients (resume now h s) = connectedClients s \<and>
   connectedClients (step (Settle now h) s) = connectedClients s \<and>
   health s = \<lparr>status = ''OK'', hr_connectedClients = connectedClients s\<rparr> \<and>
   health init = \<lparr>status = ''OK'', hr_connectedClients = 0\<rparr> \<and>
   health (run [Connect] init) = \<lparr>status = ''OK'', hr_connectedClients = 1\<rparr> \<and>
   health (run [Connect, Disconnect 0] init) = \<lparr>status = ''OK'', hr_connectedClients = 0\<rparr> \<and>
   0 \<le> connectedClients (run evs init) \<and>
   connectedClients (run evs init) = int (length (open_sockets (run evs init)))"
proof -
  have c0: "connectedClients init = 0"
    by (simp add: init_def)
  have c1: "connectedClients (on_connection s) = connectedClients s + 1"
    by (simp add: on_connection_def)
  have c2: "connectedClients (on_disconnect s) = connectedClients s - 1"
    by (simp add: on_disconnect_def)
  have c3: "connectedClients (step Connect s) = connectedClients s + 1"
    by (simp add: on_connection_def)
  have c4: "v \<in> set (open_sockets s) \<longrightarrow>
      connectedClients (step (Disconnect v) s) = connectedClients s - 1"
    by (simp add: on_disconnect_def)
  have h0: "health s = \<lparr>status = ''OK'', hr_connectedClients = connectedClients s\<rparr>"
    by (simp add: health_def)
  have h1: "health init = \<lparr>status = ''OK'', hr_connectedClients = 0\<rparr>"
    by (simp add: health_def init_def)
  have h2: "health (run [Connect] init) = \<lparr>status = ''OK'', hr_connectedClients = 1\<rparr>"
    by (simp add: health_def run_def init_def on_connection_def)
  have h3: "health (run [Connect, Disconnect 0] init) = \<lparr>status = ''OK'', hr_connectedClients = 0\<rparr>"
    by (simp add: health_def run_def init_def on_connection_def on_disconnect_def)
  have inv: "connectedClients (run evs init) = int (length (open_sockets (run evs init)))"
    using server_inv_reachable [of evs] by (simp add: server_inv_def)
  then have nonneg: "0 \<le> connectedClients (run evs init)"
    by simp
  show ?thesis
    using c0 c1 c2 c3 c4 step_Connect_then_Disconnect connectedClients_tick
      connectedClients_resume connectedClients_settle h0 h1 h2 h3 nonneg inv
    by blast
qed

theorem viewer_counter_witness:
  "0 \<in> set (open_sockets (run [Connect] init)) \<and>
   connectedClients (run [Connect] init) = 1 \<and>
   connectedClients (step (Disconnect 0) (run [Connect] init)) = 0 \<and>
   health (run [Connect] init) = \<lparr>status = ''OK'', hr_connectedClients = 1\<rparr> \<and>
   0 \<le> connectedClients (run [Connect, Disconnect 0, Disconnect 0] init)"
proof -
  have m: "0 \<in> set (open_sockets (run [Connect] init))"
    by (simp add: run_def init_def on_connection_def)
  have c: "connectedClients (run [Connect] init) = 1"
    by (simp add: run_def init_def on_connection_def)
  note t = viewer_counter [of "run [Connect] init" 0 1000 host0 "[Connect, Disconnect 0, Disconnect 0]"]
  have d: "connectedClients (step (Disconnect 0) (run [Connect] init)) = 0"
    using t m c by simp
  show ?thesis
    using m c d t by blast
qed

text \<open>
  C6. In a state the server reaches, a tick at which the counter is at least 1 starts
  one sampler call and emits nothing yet. When a waiting call returns a snapshot,
  \<open>io.emit\<close> is called once with that snapshot, and every socket open at that moment
  receives exactly that one \<open>systemMetrics\<close> event, a socket that is not open none;
  when no viewer connects or disconnects during the wait, these are the viewers of the
  tick, and there is at least one. Nothing else emits or delivers: not a call that
  returns \<open>null\<close>, not a tick, a connect or a disconnect. Only a tick starts a sampler
  call, and the calls of \<open>io.emit\<close> and the waiting calls together never outnumber
  the sampler calls started.
\<close>

theorem broadcast_once_per_tick:
  "s = run evs init \<Longrightarrow>
     (0 < pending s \<and> getSystemMetrics now h = Some m \<longrightarrow>
        emitted (step (Settle now h) s) = emitted s @ [(''systemMetrics'', m)] \<and>
        new_deliveries s (step (Settle now h) s) =
          map (\<lambda>v. (v, ''systemMetrics'', m)) (open_sockets s) \<and>
        (\<forall>v. received_by v (new_deliveries s (step (Settle now h) s)) =
           (if v \<in> set (open_sockets s) then [(''systemMetrics'', m)] else [])) \<and>
        pending (step (Settle now h) s) = pending s - 1) \<and>
     (1 \<le> connectedClients s \<and> getSystemMetrics now h = Some m \<longrightarrow>
        emitted (run [Tick, Settle now h] s) = emitted s @ [(''systemMetrics'', m)] \<and>
        new_deliveries s (run [Tick, Settle now h] s) =
          map (\<lambda>v. (v, ''systemMetrics'', m)) (open_sockets s) \<and>
        open_sockets s \<noteq> []) \<and>
     (\<not> (0 < pending s \<and> getSystemMetrics now h \<noteq> None) \<longrightarrow>
        emitted (step (Settle now h) s) = emitted s \<and>
        delivered (step (Settle now h) s) = delivered s) \<and>
     pending (step Tick s) = (if 1 \<le> connectedClients s then Suc (pending s) else pending s) \<and>
     emitted (step Tick s) = emitted s \<and> delivered (step Tick s) = delivered s \<and>
     emitted (step Connect s) = emitted s \<and> delivered (step Connect s) = delivered s \<and>
     emitted (step (Disconnect v) s) = emitted s \<and>
     delivered (step (Disconnect v) s) = delivered s \<and>
     pending (step Connect s) = pending s \<and>
     pending (step (Disconnect v) s) = pending s \<and>
     length getSystemMetrics_queries * (length (emitted s) + pending s) \<le> length (si_log s)"
proof -
  assume reach: "s = run evs init"
  have inv: "server_inv s"
    unfolding reach by (rule server_inv_reachable)
  have dist: "distinct (open_sockets s)"
    and count: "connectedClients s = int (length (open_sockets s))"
    and calls: "length getSystemMetrics_queries * (length (emitted s) + pending s)
      \<le> length (si_log s)"
    using inv by (simp_all add: server_inv_def)
  have on: "emitted (step (Settle now h) s) = emitted s @ [(''systemMetrics'', m)] \<and>
        new_deliveries s (step (Settle now h) s) =
          map (\<lambda>v. (v, ''systemMetrics'', m)) (open_sockets s) \<and>
        (\<forall>v. received_by v (new_deliveries s (step (Settle now h) s)) =
           (if v \<in> set (open_sockets s) then [(''systemMetrics'', m)] else [])) \<and>
        pending (step (Settle now h) s) = pending s - 1"
    if a: "0 < pending s" and b: "getSystemMetrics now h = Some m"
  proof -
    have new: "new_deliveries s (step (Settle now h) s) =
        map (\<lambda>v. (v, ''systemMetrics'', m)) (open_sockets s)"
      by (simp add: new_deliveries_def settle_broadcast(2) [OF a b] del: step.simps)
    show ?thesis
      by (simp add: settle_broadcast(1,3) [OF a b] new received_by_broadcast [OF dist]
          del: step.simps)
  qed
  have whole: "emitted (run [Tick, Settle now h] s) = emitted s @ [(''systemMetrics'', m)] \<and>
        new_deliveries s (run [Tick, Settle now h] s) =
          map (\<lambda>v. (v, ''systemMetrics'', m)) (open_sockets s) \<and>
        open_sockets s \<noteq> []"
    if a: "1 \<le> connectedClients s" and b: "getSystemMetrics now h = Some m"
  proof -
    have t: "emitted (step Tick s) = emitted s" "delivered (step Tick s) = delivered s"
      "open_sockets (step Tick s) = open_sockets s"
      by (simp_all add: tick_def)
    have p: "0 < pending (step Tick s)"
      using a by (simp add: tick_def)
    have ne: "open_sockets s \<noteq> []"
      using a count by auto
    have e: "emitted (run [Tick, Settle now h] s) = emitted s @ [(''systemMetrics'', m)]"
      unfolding run_Cons run_Nil settle_broadcast(1) [OF p b] by (simp only: t)
    have d: "delivered (run [Tick, Settle now h] s) =
        delivered s @ map (\<lambda>v. (v, ''systemMetrics'', m)) (open_sockets s)"
      unfolding run_Cons run_Nil settle_broadcast(2) [OF p b] by (simp only: t)
    show ?thesis
      using e ne by (simp add: new_deliveries_def d)
  qed
  have off: "emitted (step (Settle now h) s) = emitted s \<and>
      delivered (step (Settle now h) s) = delivered s"
    if "\<not> (0 < pending s \<and> getSystemMetrics now h \<noteq> None)"
    using settle_silent [OF that] by simp
  have start: "pending (step Tick s) =
      (if 1 \<le> connectedClients s then Suc (pending s) else pending s)"
    by (simp add: tick_def)
  have wait: "pending (step Connect s) = pending s" "pending (step (Disconnect v) s) = pending s"
    by (simp_all add: on_connection_def on_disconnect_def)
  show ?thesis
    using on whole off start step_no_emit wait calls by blast
qed

theorem broadcast_once_per_tick_witness:
  "0 < pending (run [Connect, Connect, Tick] init) \<and>
   getSystemMetrics 1000 host0 = Some (snapshot0 1000) \<and>
   emitted (step (Settle 1000 host0) (run [Connect, Connect, Tick] init)) =
     [(''systemMetrics'', snapshot0 1000)] \<and>
   new_deliveries (run [Connect, Connect, Tick] init)
       (step (Settle 1000 host0) (run [Connect, Connect, Tick] init)) =
     [(0, ''systemMetrics'', snapshot0 1000), (1, ''systemMetrics'', snapshot0 1000)] \<and>
   0 < pending (run [Connect, Tick, Disconnect 0] init) \<and>
   emitted (step (Settle 1000 host0) (run [Connect, Tick, Disconnect 0] init)) =
     [(''systemMetrics'', snapshot0 1000)] \<and>
   new_deliveries (run [Connect, Tick, Disconnect 0] init)
       (step (Settle 1000 host0) (run [Connect, Tick, Disconnect 0] init)) = [] \<and>
   \<not> (0 < pending (run [] init) \<and> getSystemMetrics 1000 host0 \<noteq> None) \<and>
   emitted (step (Settle 1000 host0) (run [] init)) = emitted (run [] init)"
proof -
  have a: "0 < pending (run [Connect, Connect, Tick] init) \<and>
      getSystemMetrics 1000 host0 = Some (snapshot0 1000)"
    by (simp add: run_two_viewers getSystemMetrics_host0)
  note t = broadcast_once_per_tick [OF refl, of "[Connect, Connect, Tick]" 1000 host0
      "snapshot0 1000" 0, THEN conjunct1, rule_format, OF a]
  have b: "0 < pending (run [Connect, Tick, Disconnect 0] init) \<and>
      getSystemMetrics 1000 host0 = Some (snapshot0 1000)"
    by (simp add: run_viewer_left getSystemMetrics_host0)
  note u = broadcast_once_per_tick [OF refl, of "[Connect, Tick, Disconnect 0]" 1000 host0
      "snapshot0 1000" 0, THEN conjunct1, rule_format, OF b]
  have c: "\<not> (0 < pending (run [] init) \<and> getSystemMetrics 1000 host0 \<noteq> None)"
    by (simp add: run_def init_def)
  note w = broadcast_once_per_tick [OF refl, of "[]" 1000 host0 "snapshot0 1000" 0,
      THEN conjunct2, THEN conjunct2, THEN conjunct1, rule_format, OF c]
  have t1: "emitted (step (Settle 1000 host0) (run [Connect, Connect, Tick] init)) =
     [(''systemMetrics'', snapshot0 1000)]"
    using t [THEN conjunct1] by (simp only: run_two_viewers append_Nil)
  have t2: "new_deliveries (run [Connect, Connect, Tick] init)
       (step (Settle 1000 host0) (run [Connect, Connect, Tick] init)) =
     [(0, ''systemMetrics'', snapshot0 1000), (1, ''systemMetrics'', snapshot0 1000)]"
    using t [THEN conjunct2, THEN conjunct1] by (simp only: run_two_viewers list.map)
  have u1: "emitted (step (Settle 1000 host0) (run [Connect, Tick, Disconnect 0] init)) =
     [(''systemMetrics'', snapshot0 1000)]"
    using u [THEN conjunct1] by (simp only: run_viewer_left append_Nil)
  have u2: "new_deliveries (run [Connect, Tick, Disconnect 0] init)
       (step (Settle 1000 host0) (run [Connect, Tick, Disconnect 0] init)) = []"
    using u [THEN conjunct2, THEN conjunct1] by (simp only: run_viewer_left list.map)
  show ?thesis
    using a b c t1 t2 u1 u2 w by blast
qed

text \<open>
  C7. Two sampler calls on the same host facts either both return \<open>null\<close> or return
  snapshots that agree in every field but the capture timestamp, which is the clock
  reading of each call.
\<close>

theorem sampler_deterministic:
  "(getSystemMetrics t1 h = None \<longleftrightarrow> getSystemMetrics t2 h = None) \<and>
   (\<forall>s1 s2. getSystemMetrics t1 h = Some s1 \<and> getSystemMetrics t2 h = Some s2 \<longrightarrow>
      s2 = s1\<lparr>timestamp := t2\<rparr> \<and> timestamp s1 = t1 \<and> timestamp s2 = t2 \<and>
      cpu s1 = cpu s2 \<and> memory s1 = memory s2 \<and> disk s1 = disk s2 \<and>
      network s1 = network s2 \<and> device s1 = device s2 \<and> processes s1 = processes s2 \<and>
      graphics s1 = graphics s2)"
proof (intro conjI allI impI)
  show "getSystemMetrics t1 h = None \<longleftrightarrow> getSystemMetrics t2 h = None"
  proof
    assume n: "getSystemMetrics t1 h = None"
    show "getSystemMetrics t2 h = None"
    proof (cases "getSystemMetrics t2 h")
      case None
      then show ?thesis .
    next
      case (Some s)
      then show ?thesis
        using getSystemMetrics_clock [of t2 h s t1] n by simp
    qed
  next
    assume n: "getSystemMetrics t2 h = None"
    show "getSystemMetrics t1 h = None"
    proof (cases "getSystemMetrics t1 h")
      case None
      then show ?thesis .
    next
      case (Some s)
      then show ?thesis
        using getSystemMetrics_clock [of t1 h s t2] n by simp
    qed
  qed
next
  fix s1 s2
  assume "getSystemMetrics t1 h = Some s1 \<and> getSystemMetrics t2 h = Some s2"
  then have a: "getSystemMetrics t1 h = Some s1" and b: "getSystemMetrics t2 h = Some s2"
    by simp_all
  show eq: "s2 = s1\<lparr>timestamp := t2\<rparr>"
    using getSystemMetrics_clock [OF a, of t2] b by simp
  show "timestamp s1 = t1"
    using a by (rule getSystemMetrics_timestamp)
  show "timestamp s2 = t2"
    using b by (rule getSystemMetrics_timestamp)
  show "cpu s1 = cpu s2" "memory s1 = memory s2" "disk s1 = disk s2" "network s1 = network s2"
    "device s1 = device s2" "processes s1 = processes s2" "graphics s1 = graphics s2"
    by (simp_all add: eq)
qed

theorem sampler_deterministic_witness:
  "getSystemMetrics 1000 host0 = Some (snapshot0 1000) \<and>
   getSystemMetrics 2000 host0 = Some (snapshot0 2000) \<and>
   snapshot0 2000 = (snapshot0 1000)\<lparr>timestamp := 2000\<rparr> \<and>
   timestamp (snapshot0 1000) = 1000 \<and>
   memory (snapshot0 1000) = memory (snapshot0 2000)"
proof -
  have both:
    "getSystemMetrics 1000 host0 = Some (snapshot0 1000) \<and>
     getSystemMetrics 2000 host0 = Some (snapshot0 2000)"
    by (simp add: getSystemMetrics_host0)
  note t = sampler_deterministic [of 1000 host0 2000, THEN conjunct2, rule_format, OF both]
  show ?thesis
    using both t by blast
qed

text \<open>
  C8 does not hold as stated: on a host whose collaborator reports the rates \<open>-5\<close> and
  \<open>-1\<close> for an interface, the snapshot carries these negative rates unchanged.
\<close>

theorem rates_nonneg_counterexample:
  "getSystemMetrics 1000 host_negative =
     Some ((snapshot0 1000)
       \<lparr>network := [\<lparr>iface = Str ''eth0'', rx_sec = Num (Fin (- 5)), tx_sec = Num (Fin (- 1))\<rparr>]\<rparr>) \<and>
   \<not> nonneg_real (Num (Fin (- 5))) \<and> \<not> nonneg_real (Num (Fin (- 1)))"
  by (simp add: getSystemMetrics_Some_iff host_negative_def host0_def snapshot0_def
      build_snapshot_def network_entry_def net_negative_def js_or_def)

text \<open>
  C8, as amended. In every snapshot that the sampler returns, each receive and transmit
  rate is the collaborator's value when that value is truthy, and 0 otherwise. So a rate
  is a real number greater than or equal to 0 whenever the collaborator's value is falsy
  (\<open>null\<close>, \<open>undefined\<close>, \<open>NaN\<close>, 0) or a real number greater than or equal to 0.
\<close>

theorem rates_defaulted:
  "getSystemMetrics now h = Some s \<Longrightarrow> si_networkStats h = Inr ns \<Longrightarrow>
     rx_rates s =
       map (\<lambda>n. if truthy (si_net_rx_sec n) then si_net_rx_sec n else Num (Fin 0)) ns \<and>
     tx_rates s =
       map (\<lambda>n. if truthy (si_net_tx_sec n) then si_net_tx_sec n else Num (Fin 0)) ns \<and>
     (\<forall>i < length ns.
        (falsy_or_nonneg (si_net_rx_sec (ns ! i)) \<longrightarrow> nonneg_real (rx_rates s ! i)) \<and>
        (falsy_or_nonneg (si_net_tx_sec (ns ! i)) \<longrightarrow> nonneg_real (tx_rates s ! i)))"
proof -
  assume "getSystemMetrics now h = Some s" and "si_networkStats h = Inr ns"
  then have net: "network s = map network_entry ns"
    by (auto simp: getSystemMetrics_Some_iff build_snapshot_def)
  have rx: "rx_rates s = map (\<lambda>n. js_or (si_net_rx_sec n) (Num (Fin 0))) ns"
    by (simp add: rx_rates_def net network_entry_def comp_def)
  have tx: "tx_rates s = map (\<lambda>n. js_or (si_net_tx_sec n) (Num (Fin 0))) ns"
    by (simp add: tx_rates_def net network_entry_def comp_def)
  have "\<forall>i < length ns.
        (falsy_or_nonneg (si_net_rx_sec (ns ! i)) \<longrightarrow> nonneg_real (rx_rates s ! i)) \<and>
        (falsy_or_nonneg (si_net_tx_sec (ns ! i)) \<longrightarrow> nonneg_real (tx_rates s ! i))"
    by (simp add: rx tx nonneg_js_or)
  moreover have "rx_rates s =
       map (\<lambda>n. if truthy (si_net_rx_sec n) then si_net_rx_sec n else Num (Fin 0)) ns"
    using rx by (simp add: js_or_def)
  moreover have "tx_rates s =
       map (\<lambda>n. if truthy (si_net_tx_sec n) then si_net_tx_sec n else Num (Fin 0)) ns"
    using tx by (simp add: js_or_def)
  ultimately show ?thesis
    by blast
qed

theorem rates_defaulted_witness:
  "getSystemMetrics 1000 host0 = Some (snapshot0 1000) \<and>
   si_networkStats host0 = Inr [net0] \<and>
   falsy_or_nonneg (si_net_rx_sec ([net0] ! 0)) \<and>
   falsy_or_nonneg (si_net_tx_sec ([net0] ! 0)) \<and>
   rx_rates (snapshot0 1000) = [Num (Fin 0)] \<and>
   tx_rates (snapshot0 1000) = [Num (Fin 7)] \<and>
   nonneg_real (rx_rates (snapshot0 1000) ! 0) \<and>
   nonneg_real (tx_rates (snapshot0 1000) ! 0)"
proof -
  have h: "si_networkStats host0 = Inr [net0]"
    by (simp add: host0_def)
  have f: "falsy_or_nonneg (si_net_rx_sec ([net0] ! 0))" "falsy_or_nonneg (si_net_tx_sec ([net0] ! 0))"
    by (simp_all add: falsy_or_nonneg_def net0_def)
  note t = rates_defaulted [OF getSystemMetrics_host0 h, of 1000]
  have rx: "rx_rates (snapshot0 1000) = [Num (Fin 0)]"
    using t [THEN conjunct1] by (simp add: net0_def)
  have tx: "tx_rates (snapshot0 1000) = [Num (Fin 7)]"
    using t [THEN conjunct2, THEN conjunct1] by (simp add: net0_def)
  have "0 < length [net0]"
    by simp
  note n = t [THEN conjunct2, THEN conjunct2, rule_format, OF this]
  show ?thesis
    using getSystemMetrics_host0 [of 1000] h f rx tx n by blast
qed

text \<open>
  C9 does not hold as stated: \<open>Date.now()\<close> reads the wall clock, and when it reads
  2000 as the sampler call of one tick returns and 1000 as that of the next tick
  returns, the second snapshot carries the smaller timestamp.
\<close>

theorem capture_times_counterexample:
  "capture_times (run [Connect, Tick, Settle 2000 host0, Tick, Settle 1000 host0] init) =
     [2000, 1000] \<and>
   \<not> sorted (capture_times (run [Connect, Tick, Settle 2000 host0, Tick, Settle 1000 host0] init))"
proof -
  have "capture_times (run [Connect, Tick, Settle 2000 host0, Tick, Settle 1000 host0] init) =
      [2000, 1000]"
    by (simp add: run_def init_def on_connection_def tick_def resume_def getSystemMetrics_host0
        io_emit_def capture_times_def timestamp_snapshot0)
  then show ?thesis
    by simp
qed

text \<open>
  C9, as amended. The capture timestamp of every snapshot is the reading of
  \<open>Date.now()\<close> at the return of the sampler call that produced it: in any run, the
  return of a waiting call with a snapshot adds exactly its own clock reading to the
  capture timestamps, and no other event adds any. When the clock readings of
  successive returns do not decrease, neither do the capture timestamps of the
  snapshots emitted, in the order of their emission.
\<close>

theorem capture_times_follow_clock:
  "capture_times (run [] init) = [] \<and>
   capture_times (run (evs @ [Settle now h]) init) =
     capture_times (run evs init) @
       (if 0 < pending (run evs init) \<and> getSystemMetrics now h \<noteq> None then [now] else []) \<and>
   capture_times (run (evs @ [Tick]) init) = capture_times (run evs init) \<and>
   capture_times (run (evs @ [Connect]) init) = capture_times (run evs init) \<and>
   capture_times (run (evs @ [Disconnect v]) init) = capture_times (run evs init) \<and>
   ((ev, m) \<in> set (emitted (run evs init)) \<longrightarrow>
      (\<exists>f. Settle (timestamp m) f \<in> set evs \<and> getSystemMetrics (timestamp m) f = Some m)) \<and>
   (sorted (clock_readings evs) \<longrightarrow> sorted (capture_times (run evs init)))"
proof -
  have e: "capture_times init = []"
    by (simp add: capture_times_def init_def)
  have nil: "capture_times (run [] init) = []"
    by (simp add: run_Nil e)
  have settle: "capture_times (run (evs @ [Settle now h]) init) =
     capture_times (run evs init) @
       (if 0 < pending (run evs init) \<and> getSystemMetrics now h \<noteq> None then [now] else [])"
    unfolding run_snoc by (rule capture_times_settle)
  have others: "capture_times (run (evs @ [Tick]) init) = capture_times (run evs init)"
    "capture_times (run (evs @ [Connect]) init) = capture_times (run evs init)"
    "capture_times (run (evs @ [Disconnect v]) init) = capture_times (run evs init)"
    unfolding run_snoc
    by (rule capture_times_step_Tick, rule capture_times_step_Connect,
        rule capture_times_step_Disconnect)
  have origin: "\<exists>f. Settle (timestamp m) f \<in> set evs \<and> getSystemMetrics (timestamp m) f = Some m"
    if "(ev, m) \<in> set (emitted (run evs init))"
  proof -
    from that obtain t f where tf: "Settle t f \<in> set evs" "getSystemMetrics t f = Some m"
      using emitted_reachable_origin by blast
    have "timestamp m = t"
      using tf(2) by (rule getSystemMetrics_timestamp)
    with tf show ?thesis
      by blast
  qed
  have mono: "sorted (capture_times (run evs init))" if "sorted (clock_readings evs)"
  proof -
    from that have "sorted (capture_times init @ clock_readings evs)"
      by (simp add: e)
    then show ?thesis
      by (rule capture_times_run_sorted)
  qed
  show ?thesis
    using nil settle others origin mono by blast
qed

theorem capture_times_follow_clock_witness:
  "sorted (clock_readings
     [Connect, Tick, Settle 1000 host0, Tick, Settle 1000 host_failing, Tick, Settle 2000 host0]) \<and>
   sorted (capture_times (run
     [Connect, Tick, Settle 1000 host0, Tick, Settle 1000 host_failing, Tick, Settle 2000 host0]
     init)) \<and>
   0 < pending (run [Connect, Tick] init) \<and> getSystemMetrics 1000 host0 \<noteq> None \<and>
   capture_times (run ([Connect, Tick] @ [Settle 1000 host0]) init) = [1000]"
proof -
  have s: "sorted (clock_readings
     [Connect, Tick, Settle 1000 host0, Tick, Settle 1000 host_failing, Tick, Settle 2000 host0])"
    by simp
  note t = capture_times_follow_clock [of
      "[Connect, Tick, Settle 1000 host0, Tick, Settle 1000 host_failing, Tick, Settle 2000 host0]"
      1000 host0 0 "''systemMetrics''" "snapshot0 1000"]
  note m = t [THEN conjunct2, THEN conjunct2, THEN conjunct2, THEN conjunct2, THEN conjunct2,
      THEN conjunct2, rule_format, OF s]
  have p: "0 < pending (run [Connect, Tick] init)" "capture_times (run [Connect, Tick] init) = []"
    by (simp_all add: run_def init_def on_connection_def tick_def capture_times_def)
  have g: "getSystemMetrics 1000 host0 \<noteq> None"
    by (simp add: getSystemMetrics_host0)
  note u = capture_times_follow_clock [of "[Connect, Tick]" 1000 host0 0 "''systemMetrics''"
      "snapshot0 1000", THEN conjunct2, THEN conjunct1]
  have c: "capture_times (run ([Connect, Tick] @ [Settle 1000 host0]) init) = [1000]"
    using u p g by (simp only: if_True simp_thms append_Nil)
  show ?thesis
    using s m p(1) g c by blast
qed

text \<open>
  C10. The field \<open>cpu.temperature\<close> of a snapshot that the sampler returns is the
  collaborator's \<open>currentLoadUser\<close> when that value is truthy and 0 otherwise; this
  holds of every snapshot the server emits; and the temperature query of the
  collaborator is not among the queries of the sampler, nor is it ever issued.
\<close>

theorem temperature_is_user_load:
  "(getSystemMetrics now h = Some s \<and> si_currentLoad h = Inr l \<longrightarrow>
      temperature (cpu s) =
        (if truthy (si_load_currentLoadUser l) then si_load_currentLoadUser l
         else Num (Fin 0))) \<and>
   ((ev, m) \<in> set (emitted (run evs init)) \<longrightarrow>
      (\<exists>t f u. Settle t f \<in> set evs \<and> si_currentLoad f = Inr u \<and>
         temperature (cpu m) =
           (if truthy (si_load_currentLoadUser u) then si_load_currentLoadUser u
            else Num (Fin 0)))) \<and>
   Q_cpuTemperature \<notin> set getSystemMetrics_queries \<and>
   Q_cpuTemperature \<notin> set (si_log (run evs init))"
proof -
  have sampler: "temperature (cpu s) =
        (if truthy (si_load_currentLoadUser l) then si_load_currentLoadUser l else Num (Fin 0))"
    if "getSystemMetrics now h = Some s" and "si_currentLoad h = Inr l" for now h s l
  proof -
    from that have "temperature (cpu s) = js_or (si_load_currentLoadUser l) (Num (Fin 0))"
      by (auto simp: getSystemMetrics_Some_iff build_snapshot_def)
    then show ?thesis
      by (simp add: js_or_def)
  qed
  have sent: "\<exists>t f u. Settle t f \<in> set evs \<and> si_currentLoad f = Inr u \<and>
         temperature (cpu m) =
           (if truthy (si_load_currentLoadUser u) then si_load_currentLoadUser u
            else Num (Fin 0))"
    if "(ev, m) \<in> set (emitted (run evs init))"
  proof -
    from that obtain t f where tf: "Settle t f \<in> set evs" "getSystemMetrics t f = Some m"
      using emitted_reachable_origin by blast
    from tf(2) obtain u where u: "si_currentLoad f = Inr u"
      unfolding getSystemMetrics_Some_iff by blast
    show ?thesis
      using tf(1) u sampler [OF tf(2) u] by blast
  qed
  have q: "Q_cpuTemperature \<notin> set getSystemMetrics_queries"
    by (simp add: getSystemMetrics_queries_def)
  have "set (si_log (run evs init)) \<subseteq> set getSystemMetrics_queries"
    using server_inv_reachable [of evs] by (simp add: server_inv_def)
  with q have "Q_cpuTemperature \<notin> set (si_log (run evs init))"
    by blast
  with sampler sent q show ?thesis
    by blast
qed

theorem temperature_is_user_load_witness:
  "getSystemMetrics 1000 host0 = Some (snapshot0 1000) \<and>
   si_currentLoad host0 = Inr load0 \<and>
   si_load_currentLoadUser load0 = Num (Fin 9) \<and>
   temperature (cpu (snapshot0 1000)) = Num (Fin 9)"
proof -
  have h: "getSystemMetrics 1000 host0 = Some (snapshot0 1000) \<and> si_currentLoad host0 = Inr load0"
    using getSystemMetrics_host0 [of 1000] by (simp add: host0_def)
  have u: "si_load_currentLoadUser load0 = Num (Fin 9)"
    by (simp add: load0_def)
  note t = temperature_is_user_load [of 1000 host0 "snapshot0 1000" load0 "''systemMetrics''"
      "snapshot0 1000" "[]", THEN conjunct1, rule_format, OF h]
  have "temperature (cpu (snapshot0 1000)) = Num (Fin 9)"
    using t by (simp add: u)
  then show ?thesis
    using h u by blast
qed

end
